theory Spec2Isabelle
  imports Main "HOL-Library.Sublist"
begin

section \<open>Strings\<close>

text \<open>
  Python text is modelled as \<^typ>\<open>string\<close>. The string methods used by
  \<^verbatim>\<open>tui.py\<close> are written out below; they agree with Python on ASCII text,
  which is what the menu keys, the yes/no answers and the quoting rules are made of.
\<close>

definition isspace :: "char \<Rightarrow> bool" where
  \<comment> \<open>The ASCII characters for which \<^verbatim>\<open>str.isspace\<close> holds: tab, line feed, vertical tab,
      form feed, carriage return, the four separators 0x1C..0x1F and the blank.\<close>
  "isspace c = (c \<in> set [CHR 0x09, CHR 0x0A, CHR 0x0B, CHR 0x0C, CHR 0x0D,
                          CHR 0x1C, CHR 0x1D, CHR 0x1E, CHR 0x1F, CHR 0x20])"

definition strip :: "string \<Rightarrow> string" where
  "strip s = rev (dropWhile isspace (rev (dropWhile isspace s)))"

definition lower_char :: "char \<Rightarrow> char" where
  "lower_char c =
     (let n = (of_char c :: nat) in if 65 \<le> n \<and> n \<le> 90 then char_of (n + 32) else c)"

definition lower :: "string \<Rightarrow> string" where
  "lower s = map lower_char s"

definition startswith :: "string \<Rightarrow> string \<Rightarrow> bool" where
  "startswith s p = (take (length p) s = p)"

fun join :: "string \<Rightarrow> string list \<Rightarrow> string" where
  "join sep [] = []"
| "join sep [x] = x"
| "join sep (x # y # ys) = x @ sep @ join sep (y # ys)"

section \<open>Shell quoting\<close>

text \<open>
  \<^verbatim>\<open>shlex.quote\<close> of the standard library: the empty string becomes a pair of single
  quotes, a string of safe characters only (ASCII letters, digits and
  \<^verbatim>\<open>_@%+=:,./-\<close>) is left alone, and anything else is wrapped in single quotes with
  every single quote inside replaced by the five characters \<^verbatim>\<open>'"'"'\<close>.
\<close>

abbreviation sq :: char where "sq \<equiv> CHR 0x27"
abbreviation dq :: char where "dq \<equiv> CHR 0x22"

definition safe_char :: "char \<Rightarrow> bool" where
  "safe_char c =
     (let n = (of_char c :: nat) in
        (48 \<le> n \<and> n \<le> 57) \<or> (65 \<le> n \<and> n \<le> 90) \<or> (97 \<le> n \<and> n \<le> 122) \<or>
        c \<in> set ''_@%+=:,./-'')"

definition quote_char :: "char \<Rightarrow> string" where
  "quote_char c = (if c = sq then [sq, dq, sq, dq, sq] else [c])"

definition shlex_quote :: "string \<Rightarrow> string" where
  "shlex_quote s =
     (if s = [] then [sq, sq]
      else if list_all safe_char s then s
      else [sq] @ concat (map quote_char s) @ [sq])"

definition command_text :: "string list \<Rightarrow> string" where
  \<comment> \<open>\<^verbatim>\<open>" ".join(shlex.quote(str(x)) for x in cmd)\<close>\<close>
  "command_text cmd = join '' '' (map shlex_quote cmd)"

section \<open>Results, the terminal and the processes\<close>

record CommandResult =
  command :: string
  stdout :: string
  stderr :: string
  returncode :: int

text \<open>
  What \<^verbatim>\<open>subprocess.run\<close> hands back for a process that was started and has ended.
\<close>

record completed =
  proc_stdout :: string
  proc_stderr :: string
  proc_returncode :: int

text \<open>
  The exceptions that travel through the program: the user's interruption, which is no
  \<^verbatim>\<open>Exception\<close>, and every other failure with the text \<^verbatim>\<open>str(exc)\<close> shows.
\<close>

datatype exn = KeyboardInterrupt | Exception string

text \<open>
  Standard input is the sequence of what the operator does at each read: a line typed, or
  an interruption. Reading past its end is the end of file. Standard output is the
  sequence of \<^verbatim>\<open>print\<close> calls and of the prompts \<^verbatim>\<open>input\<close> writes.
\<close>

datatype keyboard = Line string | CtrlC

datatype written = Print string | Prompt string

record world =
  stdin :: "keyboard list"
  out :: "written list"
  calls :: "string list list"

text \<open>
  The operating system as the program meets it: given the argument vectors of the
  processes run so far and the next argument vector, either the process cannot be run
  (an exception) or it ends with its output and exit code. A service manager that
  answers differently at its third invocation is such a function.
\<close>

type_synonym system = "string list list \<Rightarrow> string list \<Rightarrow> exn + completed"

type_synonym 'a res = "(exn + 'a) \<times> world"

definition print :: "string \<Rightarrow> world \<Rightarrow> world" where
  "print s w = w\<lparr>out := out w @ [Print s]\<rparr>"

definition run :: "system \<Rightarrow> string list \<Rightarrow> world \<Rightarrow> CommandResult res" where
  "run sys cmd w =
     (let w' = w\<lparr>calls := calls w @ [cmd]\<rparr> in
      case sys (calls w) cmd of
        Inl e \<Rightarrow> (Inl e, w')
      | Inr proc \<Rightarrow>
          (Inr \<lparr>command = command_text cmd,
                stdout = strip (proc_stdout proc),
                stderr = strip (proc_stderr proc),
                returncode = proc_returncode proc\<rparr>, w'))"

definition prompt :: "string \<Rightarrow> world \<Rightarrow> string res" where
  "prompt msg w =
     (let w' = w\<lparr>out := out w @ [Prompt msg]\<rparr> in
      case stdin w of
        [] \<Rightarrow> (Inl (Exception ''EOF when reading a line''), w')
      | CtrlC # rest \<Rightarrow> (Inl KeyboardInterrupt, w'\<lparr>stdin := rest\<rparr>)
      | Line s # rest \<Rightarrow> (Inr (strip s), w'\<lparr>stdin := rest\<rparr>))"

definition ask_yes_no :: "string \<Rightarrow> world \<Rightarrow> bool res" where
  "ask_yes_no msg w =
     (case prompt msg w of
        (Inl e, w') \<Rightarrow> (Inl e, w')
      | (Inr answer, w') \<Rightarrow> (Inr (startswith (lower answer) ''y''), w'))"

definition print_result :: "CommandResult \<Rightarrow> world \<Rightarrow> world" where
  "print_result result w =
     (let w1 = print (CHR 0x0A # ''$ '' @ command result) w;
          w2 = (if stdout result \<noteq> [] then print (stdout result) w1 else w1);
          w3 = (if stderr result \<noteq> [] then print (''[stderr] '' @ stderr result) w2 else w2)
      in print [] w3)"

section \<open>The service controller\<close>

definition service_names :: "string list" where
  "service_names = [''tor'', ''tor.service'', ''tor@default'', ''tor@default.service'']"

definition hint :: string where
  "hint = '' (Tor may not be installed or systemctl may require sudo)''"

text \<open>
  The \<^verbatim>\<open>for name in service_names\<close> loop of \<^verbatim>\<open>tor_service\<close>, over the names still to
  try, with \<^verbatim>\<open>last_result\<close> as the loop carries it; the equation for the empty list is
  the code after the loop.
\<close>

fun tor_service_loop ::
  "system \<Rightarrow> string \<Rightarrow> string list \<Rightarrow> CommandResult option \<Rightarrow> world \<Rightarrow> CommandResult res"
where
  "tor_service_loop sys action [] last_result w =
     (Inr \<lparr>command = [],
           stdout = (case last_result of Some r \<Rightarrow> stdout r | None \<Rightarrow> []),
           stderr = (case last_result of Some r \<Rightarrow> stderr r | None \<Rightarrow> []) @ hint,
           returncode = (case last_result of Some r \<Rightarrow> returncode r | None \<Rightarrow> 1)\<rparr>, w)"
| "tor_service_loop sys action (name # names) last_result w =
     (case run sys [''systemctl'', action, name] w of
        (Inl e, w') \<Rightarrow> (Inl e, w')
      | (Inr result, w') \<Rightarrow>
          if returncode result = 0 then (Inr result, w')
          else tor_service_loop sys action names (Some result) w')"

definition tor_service :: "system \<Rightarrow> string \<Rightarrow> world \<Rightarrow> CommandResult res" where
  "tor_service sys action w =
     (if action \<notin> {''start'', ''stop'', ''reload'', ''status''}
      then (Inr \<lparr>command = [], stdout = [], stderr = ''Unsupported action '' @ action,
                 returncode = 1\<rparr>, w)
      else tor_service_loop sys action service_names None w)"

section \<open>Composition of effects\<close>

text \<open>
  Statements in sequence: the second runs in the world the first leaves, unless the first
  raised, in which case the exception travels on.
\<close>

definition bind :: "'a res \<Rightarrow> ('a \<Rightarrow> world \<Rightarrow> 'b res) \<Rightarrow> 'b res" where
  "bind m f = (case m of (Inl e, w) \<Rightarrow> (Inl e, w) | (Inr x, w) \<Rightarrow> f x w)"

abbreviation nl :: char where "nl \<equiv> CHR 0x0A"
abbreviation bs :: char where "bs \<equiv> CHR 0x5C"

section \<open>The actions\<close>

text \<open>
  Every action takes \<open>binary\<close>, the text \<^verbatim>\<open>str(binary)\<close> of the resolved path, prompts
  for its parameters and runs the external program once (twice for the reload).
\<close>

definition show_server :: "system \<Rightarrow> string \<Rightarrow> world \<Rightarrow> CommandResult res" where
  "show_server sys binary w =
     bind (prompt ''Server name: '' w) (\<lambda>name.
     run sys [binary, ''show'', ''server'', name])"

definition add_server :: "system \<Rightarrow> string \<Rightarrow> world \<Rightarrow> CommandResult res" where
  "add_server sys binary w =
     bind (prompt ''Server name: '' w) (\<lambda>name w1.
     bind (prompt ''Endpoint (ip:port): '' w1) (\<lambda>endpoint.
     run sys [binary, ''add-server'', ''--name'', name, ''--endpoint'', endpoint]))"

definition delete_server :: "system \<Rightarrow> string \<Rightarrow> world \<Rightarrow> CommandResult res" where
  "delete_server sys binary w =
     bind (prompt ''Server name to delete: '' w) (\<lambda>name.
     run sys [binary, ''delete-server'', name])"

definition list_clients :: "system \<Rightarrow> string \<Rightarrow> world \<Rightarrow> CommandResult res" where
  "list_clients sys binary w =
     bind (prompt ''Server name: '' w) (\<lambda>name.
     run sys [binary, ''list-clients'', ''--server'', name])"

definition add_client :: "system \<Rightarrow> string \<Rightarrow> world \<Rightarrow> CommandResult res" where
  "add_client sys binary w =
     bind (prompt ''Server name: '' w) (\<lambda>server w1.
     bind (prompt ''Client name: '' w1) (\<lambda>client.
     run sys [binary, ''add-client'', ''--server'', server, ''--client'', client]))"

definition export_client :: "system \<Rightarrow> string \<Rightarrow> world \<Rightarrow> CommandResult res" where
  "export_client sys binary w =
     bind (prompt ''Server name: '' w) (\<lambda>server w1.
     bind (prompt ''Client name: '' w1) (\<lambda>client w2.
     bind (prompt ''Output path (e.g., ~/client.conf): '' w2) (\<lambda>output.
     run sys [binary, ''export-client'', ''--server'', server, ''--client'', client,
              ''--output'', output])))"

definition start_server :: "system \<Rightarrow> string \<Rightarrow> world \<Rightarrow> CommandResult res" where
  "start_server sys binary w =
     bind (prompt ''Server name: '' w) (\<lambda>server.
     run sys [binary, ''up'', server])"

definition stop_server :: "system \<Rightarrow> string \<Rightarrow> world \<Rightarrow> CommandResult res" where
  "stop_server sys binary w =
     bind (prompt ''Server name: '' w) (\<lambda>server.
     run sys [binary, ''down'', server])"

definition reload_server :: "system \<Rightarrow> string \<Rightarrow> world \<Rightarrow> CommandResult res" where
  "reload_server sys binary w =
     bind (prompt ''Server name: '' w) (\<lambda>server w1.
     bind (run sys [binary, ''down'', server] w1) (\<lambda>down_result w2.
     if returncode down_result \<noteq> 0 then (Inr down_result, w2)
     else run sys [binary, ''up'', server] w2))"

definition connect_client :: "system \<Rightarrow> string \<Rightarrow> world \<Rightarrow> CommandResult res" where
  "connect_client sys binary w =
     bind (prompt ''Server name: '' w) (\<lambda>server w1.
     bind (prompt ''Client name: '' w1) (\<lambda>client w2.
     bind (ask_yes_no ''Use ninja mode (Tor)? [y/N]: '' w2) (\<lambda>use_ninja.
     let cmd = [binary, ''connect'', ''--server'', server, ''--client'', client] in
     run sys (if use_ninja then cmd @ [''--ninja''] else cmd))))"

definition disconnect_client :: "system \<Rightarrow> string \<Rightarrow> world \<Rightarrow> CommandResult res" where
  "disconnect_client sys binary w =
     bind (prompt ''Server name: '' w) (\<lambda>server w1.
     bind (prompt ''Client name: '' w1) (\<lambda>client w2.
     bind (ask_yes_no ''Use ninja mode (Tor)? [y/N]: '' w2) (\<lambda>use_ninja.
     let cmd = [binary, ''disconnect'', ''--server'', server, ''--client'', client] in
     run sys (if use_ninja then cmd @ [''--ninja''] else cmd))))"

section \<open>The menus\<close>

text \<open>
  A registry is the \<^verbatim>\<open>actions\<close> dictionary of a menu, in its order: key, label and the
  function to call, or \<open>None\<close> for an entry that only leads elsewhere. One turn of a
  \<^verbatim>\<open>while True\<close> loop ends in \<^verbatim>\<open>continue\<close> (or the end of the body), in
  \<^verbatim>\<open>return\<close>, or in an exception leaving the loop.
\<close>

type_synonym registry = "(string \<times> string \<times> (world \<Rightarrow> CommandResult res) option) list"

datatype turn = Continue | Return | Raise exn

definition show_menu :: "string \<Rightarrow> registry \<Rightarrow> world \<Rightarrow> world" where
  \<comment> \<open>The title line and \<^verbatim>\<open>for key, (label, _) in actions.items(): print(f"{key}) {label}")\<close>\<close>
  "show_menu title actions w =
     fold (\<lambda>(key, label, _). print (key @ '') '' @ label)) actions (print (nl # title) w)"

text \<open>
  The part the three submenus share word for word: the lookup of the choice, the
  invalid-choice notice, the label, the call and its two handlers.
\<close>

definition dispatch :: "registry \<Rightarrow> string \<Rightarrow> world \<Rightarrow> turn \<times> world" where
  "dispatch actions choice w =
     (case map_of actions choice of
        None \<Rightarrow> (Continue, print (''Invalid choice.'' @ [nl]) w)
      | Some (label, None) \<Rightarrow> (Return, w)
      | Some (label, Some func) \<Rightarrow>
          (case func (print (''== '' @ label @ '' =='') w) of
             (Inr result, w') \<Rightarrow> (Continue, print_result result w')
           | (Inl KeyboardInterrupt, w') \<Rightarrow> (Continue, print (nl # ''Cancelled.'' @ [nl]) w')
           | (Inl (Exception msg), w') \<Rightarrow> (Continue, print (''Error: '' @ msg @ [nl]) w')))"

definition advanced_actions :: "system \<Rightarrow> string \<Rightarrow> registry" where
  "advanced_actions sys binary =
     [(''1'', ''List servers'', Some (run sys [binary, ''list-servers''])),
      (''2'', ''Show server details'', Some (show_server sys binary)),
      (''3'', ''Add server'', Some (add_server sys binary)),
      (''4'', ''Delete server'', Some (delete_server sys binary)),
      (''5'', ''List clients for server'', Some (list_clients sys binary)),
      (''6'', ''Add client'', Some (add_client sys binary)),
      (''7'', ''Generate key pair'', Some (run sys [binary, ''genkey''])),
      (''b'', ''Back'', None)]"

definition host_actions :: "system \<Rightarrow> string \<Rightarrow> registry" where
  "host_actions sys binary =
     [(''1'', ''Start server (up)'', Some (start_server sys binary)),
      (''2'', ''Stop server (down)'', Some (stop_server sys binary)),
      (''3'', ''Reload server (down/up)'', Some (reload_server sys binary)),
      (''4'', ''Export client config'', Some (export_client sys binary)),
      (''5'', ''Advanced options'', None),
      (''b'', ''Back'', None)]"

definition device_actions :: "system \<Rightarrow> string \<Rightarrow> registry" where
  "device_actions sys binary =
     [(''1'', ''Connect as client'', Some (connect_client sys binary)),
      (''2'', ''Disconnect client'', Some (disconnect_client sys binary)),
      (''3'', ''Start Tor (ninja mode)'', Some (tor_service sys ''start'')),
      (''4'', ''Stop Tor'', Some (tor_service sys ''stop'')),
      (''5'', ''Reload Tor'', Some (tor_service sys ''reload'')),
      (''6'', ''Tor status'', Some (tor_service sys ''status'')),
      (''b'', ''Back'', None)]"

definition advanced_turn :: "system \<Rightarrow> string \<Rightarrow> world \<Rightarrow> turn \<times> world" where
  "advanced_turn sys binary w =
     (case prompt ''Select option: '' (show_menu ''Advanced'' (advanced_actions sys binary) w) of
        (Inl e, w') \<Rightarrow> (Raise e, w')
      | (Inr choice, w') \<Rightarrow>
          if lower choice = ''b'' then (Return, print [] w')
          else dispatch (advanced_actions sys binary) choice w')"

definition device_turn :: "system \<Rightarrow> string \<Rightarrow> world \<Rightarrow> turn \<times> world" where
  "device_turn sys binary w =
     (case prompt ''Select option: ''
             (show_menu ''Run on current device'' (device_actions sys binary) w) of
        (Inl e, w') \<Rightarrow> (Raise e, w')
      | (Inr choice, w') \<Rightarrow>
          if lower choice = ''b'' then (Return, w')
          else dispatch (device_actions sys binary) choice w')"

section \<open>Vocabulary of the statements\<close>

text \<open>
  The argument vectors the service controller hands to the service manager for a list of
  candidate names, and its \<open>j\<close>-th invocation (counting from 0): the process runner on
  the \<open>j\<close>-th candidate, in the world where the \<open>j\<close> earlier candidates have been run.
\<close>

definition probes :: "string \<Rightarrow> string list \<Rightarrow> string list list" where
  "probes action names = map (\<lambda>name. [''systemctl'', action, name]) names"

definition attempt :: "system \<Rightarrow> string \<Rightarrow> string list \<Rightarrow> world \<Rightarrow> nat \<Rightarrow> CommandResult res" where
  "attempt sys action names w j =
     run sys [''systemctl'', action, names ! j] (w\<lparr>calls := calls w @ probes action (take j names)\<rparr>)"

text \<open>
  Fake service managers: one whose every process ends with exit code 3 and the error
  text \<open>boom\<close>, and one that fails until two processes have been run and succeeds from
  the third on. The world \<open>idle\<close> has no input left, nothing written and nothing run.
\<close>

definition always_fails :: system where
  "always_fails history cmd =
     Inr \<lparr>proc_stdout = [], proc_stderr = ''boom'', proc_returncode = 3\<rparr>"

definition third_succeeds :: system where
  "third_succeeds history cmd =
     (if length history = 2
      then Inr \<lparr>proc_stdout = ''active'', proc_stderr = [], proc_returncode = 0\<rparr>
      else Inr \<lparr>proc_stdout = [], proc_stderr = ''not found'', proc_returncode = 4\<rparr>)"

definition idle :: world where
  "idle = \<lparr>stdin = [], out = [], calls = []\<rparr>"

text \<open>
  A fake external program for the reload: every \<open>down\<close> ends with the given exit code,
  everything else succeeds.
\<close>

definition down_exits :: "int \<Rightarrow> system" where
  "down_exits n history cmd =
     (if ''down'' \<in> set cmd
      then Inr \<lparr>proc_stdout = [], proc_stderr = ''is not a WireGuard interface'', proc_returncode = n\<rparr>
      else Inr \<lparr>proc_stdout = ''interface up'', proc_stderr = [], proc_returncode = 0\<rparr>)"




section \<open>Facts about the process runner and the candidate loop\<close>

lemma run_calls: "calls (snd (run sys cmd w)) = calls w @ [cmd]"
  by (simp add: run_def Let_def split: sum.splits)

lemma run_world: "snd (run sys cmd w) = w\<lparr>calls := calls w @ [cmd]\<rparr>"
  by (simp add: run_def Let_def split: sum.splits)

lemma run_command: "run sys cmd w = (Inr r, w') \<Longrightarrow> command r = command_text cmd"
  by (auto simp add: run_def Let_def split: sum.splits)

lemma loop_calls:
  "\<exists>k\<le>length names. (names = [] \<or> 0 < k) \<and>
     snd (tor_service_loop sys action names last_result w)
       = w\<lparr>calls := calls w @ probes action (take k names)\<rparr>"
proof (induction names arbitrary: last_result w)
  case Nil
  show ?case by (simp add: probes_def)
next
  case (Cons name names)
  let ?cmd = "[''systemctl'', action, name]"
  obtain x w' where r: "run sys ?cmd w = (x, w')"
    by (cases "run sys ?cmd w")
  have w': "w' = w\<lparr>calls := calls w @ [?cmd]\<rparr>"
    using run_world [of sys ?cmd w] r by simp
  have stop: "\<exists>k\<le>length (name # names). (name # names = [] \<or> 0 < k) \<and>
      snd (tor_service_loop sys action (name # names) last_result w)
        = w\<lparr>calls := calls w @ probes action (take k (name # names))\<rparr>"
    if "snd (tor_service_loop sys action (name # names) last_result w) = w'"
    using that w' by (intro exI [of _ 1]) (simp add: probes_def)
  show ?case
  proof (cases x)
    case (Inl e)
    with r show ?thesis by (intro stop) simp
  next
    case (Inr result)
    show ?thesis
    proof (cases "returncode result = 0")
      case True
      with r Inr show ?thesis by (intro stop) simp
    next
      case False
      from Cons.IH [of "Some result" w'] obtain k where k: "k \<le> length names"
        "snd (tor_service_loop sys action names (Some result) w')
           = w'\<lparr>calls := calls w' @ probes action (take k names)\<rparr>"
        by blast
      with r w' Inr False have "snd (tor_service_loop sys action (name # names) last_result w)
          = w\<lparr>calls := calls w @ probes action (take (Suc k) (name # names))\<rparr>"
        by (simp add: probes_def)
      with k(1) show ?thesis by (intro exI [of _ "Suc k"]) simp
    qed
  qed
qed

lemma loop_command:
  assumes "tor_service_loop sys action names last_result w = (Inr r, w')"
    and "\<forall>r0. last_result = Some r0 \<longrightarrow> returncode r0 \<noteq> 0"
  shows "if returncode r = 0
         then calls w' \<noteq> [] \<and> command r = command_text (last (calls w'))
         else command r = []"
  using assms
proof (induction names arbitrary: last_result w)
  case Nil
  then show ?case by (auto split: option.splits)
next
  case (Cons name names)
  let ?cmd = "[''systemctl'', action, name]"
  obtain x w1 where r: "run sys ?cmd w = (x, w1)"
    by (cases "run sys ?cmd w")
  have w1: "w1 = w\<lparr>calls := calls w @ [?cmd]\<rparr>"
    using run_world [of sys ?cmd w] r by simp
  from Cons.prems(1) r obtain result where x: "x = Inr result"
    by (cases x) auto
  show ?case
  proof (cases "returncode result = 0")
    case True
    with Cons.prems(1) r x have "r = result" "w' = w1" by auto
    with True w1 run_command [of sys ?cmd w result w1] r x show ?thesis by simp
  next
    case False
    with Cons.prems(1) r x
    have "tor_service_loop sys action names (Some result) w1 = (Inr r, w')" by simp
    from Cons.IH [OF this] False show ?thesis by simp
  qed
qed

lemma loop_first_success:
  assumes "k < length names"
    and "\<forall>j<k. \<exists>r. fst (attempt sys action names w j) = Inr r \<and> returncode r \<noteq> 0"
    and "fst (attempt sys action names w k) = Inr r" and "returncode r = 0"
  shows "tor_service_loop sys action names last_result w
           = (Inr r, w\<lparr>calls := calls w @ probes action (take (Suc k) names)\<rparr>)"
  using assms
proof (induction names arbitrary: k w last_result)
  case Nil
  then show ?case by simp
next
  case (Cons name names)
  let ?cmd = "[''systemctl'', action, name]"
  obtain x w' where r: "run sys ?cmd w = (x, w')"
    by (cases "run sys ?cmd w")
  have w': "w' = w\<lparr>calls := calls w @ [?cmd]\<rparr>"
    using run_world [of sys ?cmd w] r by simp
  have a0: "attempt sys action (name # names) w 0 = run sys ?cmd w"
    by (simp add: attempt_def probes_def)
  show ?case
  proof (cases k)
    case 0
    with Cons.prems a0 r have "x = Inr r" by simp
    with r w' Cons.prems(4) show ?thesis by (simp add: 0 probes_def)
  next
    case (Suc k')
    from Cons.prems(2) Suc a0 r obtain r0 where r0: "x = Inr r0" "returncode r0 \<noteq> 0"
      by fastforce
    have shift: "attempt sys action (name # names) w (Suc j) = attempt sys action names w' j" for j
      by (simp add: attempt_def probes_def w')
    have "tor_service_loop sys action names (Some r0) w'
            = (Inr r, w'\<lparr>calls := calls w' @ probes action (take (Suc k') names)\<rparr>)"
    proof (rule Cons.IH)
      show "k' < length names" using Cons.prems(1) Suc by simp
      show "\<forall>j<k'. \<exists>r. fst (attempt sys action names w' j) = Inr r \<and> returncode r \<noteq> 0"
        using Cons.prems(2) Suc shift by (metis Suc_less_eq)
      show "fst (attempt sys action names w' k') = Inr r"
        using Cons.prems(3) Suc shift by simp
      show "returncode r = 0" by (rule Cons.prems(4))
    qed
    with r r0 w' show ?thesis by (simp add: Suc probes_def)
  qed
qed

lemma loop_all_fail:
  assumes "\<forall>j<length names. \<exists>r. fst (attempt sys action names w j) = Inr r \<and> returncode r \<noteq> 0"
  shows "tor_service_loop sys action names last_result w
           = tor_service_loop sys action []
               (if names = [] then last_result
                else Some (projr (fst (attempt sys action names w (length names - 1)))))
               (w\<lparr>calls := calls w @ probes action names\<rparr>)"
  using assms
proof (induction names arbitrary: w last_result)
  case Nil
  then show ?case by (simp add: probes_def)
next
  case (Cons name names)
  let ?cmd = "[''systemctl'', action, name]"
  obtain x w' where r: "run sys ?cmd w = (x, w')"
    by (cases "run sys ?cmd w")
  have w': "w' = w\<lparr>calls := calls w @ [?cmd]\<rparr>"
    using run_world [of sys ?cmd w] r by simp
  have a0: "attempt sys action (name # names) w 0 = run sys ?cmd w"
    by (simp add: attempt_def probes_def)
  have shift: "attempt sys action (name # names) w (Suc j) = attempt sys action names w' j" for j
    by (simp add: attempt_def probes_def w')
  from Cons.prems a0 r obtain r0 where r0: "x = Inr r0" "returncode r0 \<noteq> 0"
    by fastforce
  have ih: "tor_service_loop sys action names (Some r0) w'
           = tor_service_loop sys action []
               (if names = [] then Some r0
                else Some (projr (fst (attempt sys action names w' (length names - 1)))))
               (w'\<lparr>calls := calls w' @ probes action names\<rparr>)"
  proof (rule Cons.IH)
    show "\<forall>j<length names. \<exists>r. fst (attempt sys action names w' j) = Inr r \<and> returncode r \<noteq> 0"
      using Cons.prems shift by (metis Suc_less_eq length_Cons)
  qed
  show ?case
  proof (cases "names = []")
    case True
    with r r0 w' a0 show ?thesis by (simp add: probes_def)
  next
    case False
    then obtain m where m: "length names = Suc m" by (cases names) auto
    with False r r0 w' ih shift [of m] show ?thesis by (simp add: probes_def)
  qed
qed

section \<open>No action gives input back\<close>

lemma print_fields [simp]:
  "stdin (print s w) = stdin w" "calls (print s w) = calls w" "out (print s w) = out w @ [Print s]"
  by (simp_all add: print_def)

lemma print_result_fields [simp]:
  "stdin (print_result r w) = stdin w" "calls (print_result r w) = calls w"
  by (simp_all add: print_result_def Let_def)

lemma show_menu_fields [simp]:
  "stdin (show_menu title actions w) = stdin w" "calls (show_menu title actions w) = calls w"
proof -
  have "stdin (fold (\<lambda>(key, label, _). print (key @ '') '' @ label)) actions v) = stdin v
      \<and> calls (fold (\<lambda>(key, label, _). print (key @ '') '' @ label)) actions v) = calls v" for v
    by (induction actions arbitrary: v) (auto simp: case_prod_beta)
  then show "stdin (show_menu title actions w) = stdin w"
    "calls (show_menu title actions w) = calls w"
    by (simp_all add: show_menu_def)
qed

lemma run_stdin [simp]: "stdin (snd (run sys cmd w)) = stdin w"
  by (simp add: run_world)

lemma prompt_stdin_le: "length (stdin (snd (prompt msg w))) \<le> length (stdin w)"
  by (simp add: prompt_def Let_def split: list.splits keyboard.splits)

lemma prompt_Inr_stdin:
  "prompt msg w = (Inr x, w') \<Longrightarrow> length (stdin w') < length (stdin w)"
  by (auto simp: prompt_def Let_def split: list.splits keyboard.splits)

lemma bind_stdin_le:
  assumes "length (stdin (snd m)) \<le> n"
    and "\<And>x v. length (stdin (snd (f x v))) \<le> length (stdin v)"
  shows "length (stdin (snd (bind m f))) \<le> n"
proof (cases m)
  case (Pair r v)
  show ?thesis
  proof (cases r)
    case (Inl e)
    with Pair assms(1) show ?thesis by (simp add: bind_def)
  next
    case (Inr x)
    with Pair assms(1) assms(2) [of x v] show ?thesis by (simp add: bind_def)
  qed
qed

lemma ask_yes_no_stdin_le: "length (stdin (snd (ask_yes_no msg w))) \<le> length (stdin w)"
  using prompt_stdin_le [of msg w]
  by (cases "prompt msg w") (auto simp: ask_yes_no_def split: sum.splits)

lemma tor_service_stdin [simp]: "stdin (snd (tor_service sys action w)) = stdin w"
proof (cases "action \<in> {''start'', ''stop'', ''reload'', ''status''}")
  case True
  from loop_calls [of service_names sys action None w] True show ?thesis
    by (auto simp: tor_service_def)
next
  case False
  then show ?thesis by (simp add: tor_service_def)
qed

lemmas stdin_le_intros =
  bind_stdin_le prompt_stdin_le ask_yes_no_stdin_le order.refl

lemma actions_stdin_le:
  "length (stdin (snd (show_server sys binary w))) \<le> length (stdin w)"
  "length (stdin (snd (add_server sys binary w))) \<le> length (stdin w)"
  "length (stdin (snd (delete_server sys binary w))) \<le> length (stdin w)"
  "length (stdin (snd (list_clients sys binary w))) \<le> length (stdin w)"
  "length (stdin (snd (add_client sys binary w))) \<le> length (stdin w)"
  "length (stdin (snd (export_client sys binary w))) \<le> length (stdin w)"
  "length (stdin (snd (start_server sys binary w))) \<le> length (stdin w)"
  "length (stdin (snd (stop_server sys binary w))) \<le> length (stdin w)"
  "length (stdin (snd (reload_server sys binary w))) \<le> length (stdin w)"
  "length (stdin (snd (connect_client sys binary w))) \<le> length (stdin w)"
  "length (stdin (snd (disconnect_client sys binary w))) \<le> length (stdin w)"
  unfolding show_server_def add_server_def delete_server_def list_clients_def add_client_def
    export_client_def start_server_def stop_server_def reload_server_def connect_client_def
    disconnect_client_def Let_def
  by (intro stdin_le_intros | simp)+

lemma dispatch_stdin_le:
  assumes "\<And>key label func v. (key, label, Some func) \<in> set actions
             \<Longrightarrow> length (stdin (snd (func v))) \<le> length (stdin v)"
  shows "length (stdin (snd (dispatch actions choice w))) \<le> length (stdin w)"
proof (cases "map_of actions choice")
  case None
  then show ?thesis by (simp add: dispatch_def)
next
  case (Some entry)
  obtain label f where entry: "entry = (label, f)" by (cases entry)
  show ?thesis
  proof (cases f)
    case None
    with Some entry show ?thesis by (simp add: dispatch_def)
  next
    case (Some func)
    with \<open>map_of actions choice = Some entry\<close> entry
    have "(choice, label, Some func) \<in> set actions" by (auto dest: map_of_SomeD)
    from assms [OF this, of "print (''== '' @ label @ '' =='') w"]
    show ?thesis using \<open>map_of actions choice = Some entry\<close> entry Some
      by (auto simp: dispatch_def split: prod.splits sum.splits exn.splits)
  qed
qed

lemma registry_stdin_le:
  assumes "(key, label, Some func) \<in> set (advanced_actions sys binary)
         \<or> (key, label, Some func) \<in> set (host_actions sys binary)
         \<or> (key, label, Some func) \<in> set (device_actions sys binary)"
  shows "length (stdin (snd (func v))) \<le> length (stdin v)"
  using assms
  by (auto simp: advanced_actions_def host_actions_def device_actions_def actions_stdin_le)

lemma advanced_turn_stdin:
  "length (stdin (snd (advanced_turn sys binary w))) \<le> length (stdin w)"
  "advanced_turn sys binary w = (Continue, w') \<Longrightarrow> length (stdin w') < length (stdin w)"
proof -
  let ?v = "show_menu ''Advanced'' (advanced_actions sys binary) w"
  obtain r v' where p: "prompt ''Select option: '' ?v = (r, v')"
    by (cases "prompt ''Select option: '' ?v")
  have le: "length (stdin v') \<le> length (stdin w)"
    using prompt_stdin_le [of "''Select option: ''" ?v] p by simp
  have d: "length (stdin (snd (dispatch (advanced_actions sys binary) c v'))) \<le> length (stdin v')" for c
    by (rule dispatch_stdin_le) (rule registry_stdin_le, blast)
  show "length (stdin (snd (advanced_turn sys binary w))) \<le> length (stdin w)"
    using p le d by (cases r) (auto simp: advanced_turn_def intro: order_trans)
  show "length (stdin w') < length (stdin w)" if "advanced_turn sys binary w = (Continue, w')"
  proof (cases r)
    case (Inl e)
    with that p show ?thesis by (simp add: advanced_turn_def)
  next
    case (Inr c)
    with p have lt: "length (stdin v') < length (stdin w)"
      using prompt_Inr_stdin [of "''Select option: ''" ?v c v'] by simp
    from that p Inr have "w' = snd (dispatch (advanced_actions sys binary) c v')"
      by (auto simp: advanced_turn_def split: if_splits)
    with d [of c] lt show ?thesis by simp
  qed
qed

lemma device_turn_stdin:
  "length (stdin (snd (device_turn sys binary w))) \<le> length (stdin w)"
  "device_turn sys binary w = (Continue, w') \<Longrightarrow> length (stdin w') < length (stdin w)"
proof -
  let ?v = "show_menu ''Run on current device'' (device_actions sys binary) w"
  obtain r v' where p: "prompt ''Select option: '' ?v = (r, v')"
    by (cases "prompt ''Select option: '' ?v")
  have le: "length (stdin v') \<le> length (stdin w)"
    using prompt_stdin_le [of "''Select option: ''" ?v] p by simp
  have d: "length (stdin (snd (dispatch (device_actions sys binary) c v'))) \<le> length (stdin v')" for c
    by (rule dispatch_stdin_le) (rule registry_stdin_le, blast)
  show "length (stdin (snd (device_turn sys binary w))) \<le> length (stdin w)"
    using p le d by (cases r) (auto simp: device_turn_def intro: order_trans)
  show "length (stdin w') < length (stdin w)" if "device_turn sys binary w = (Continue, w')"
  proof (cases r)
    case (Inl e)
    with that p show ?thesis by (simp add: device_turn_def)
  next
    case (Inr c)
    with p have lt: "length (stdin v') < length (stdin w)"
      using prompt_Inr_stdin [of "''Select option: ''" ?v c v'] by simp
    from that p Inr have "w' = snd (dispatch (device_actions sys binary) c v')"
      by (auto simp: device_turn_def split: if_splits)
    with d [of c] lt show ?thesis by simp
  qed
qed

section \<open>The menu loops\<close>

text \<open>
  Each \<^verbatim>\<open>while True\<close> loop repeats its turn until the turn returns or raises. Every
  turn that continues has read a line, so on any finite input the loop ends: at the
  latest with the end-of-file error of the prompt, which no handler of the loop catches.
\<close>

function advanced_menu :: "system \<Rightarrow> string \<Rightarrow> world \<Rightarrow> unit res" where
  "advanced_menu sys binary w =
     (case advanced_turn sys binary w of
        (Continue, w') \<Rightarrow> advanced_menu sys binary w'
      | (Return, w') \<Rightarrow> (Inr (), w')
      | (Raise e, w') \<Rightarrow> (Inl e, w'))"
  by pat_completeness auto
termination
  by (relation "measure (\<lambda>(sys, binary, w). length (stdin w))")
    (auto simp: advanced_turn_stdin(2))

function device_menu :: "system \<Rightarrow> string \<Rightarrow> world \<Rightarrow> unit res" where
  "device_menu sys binary w =
     (case device_turn sys binary w of
        (Continue, w') \<Rightarrow> device_menu sys binary w'
      | (Return, w') \<Rightarrow> (Inr (), w')
      | (Raise e, w') \<Rightarrow> (Inl e, w'))"
  by pat_completeness auto
termination
  by (relation "measure (\<lambda>(sys, binary, w). length (stdin w))")
    (auto simp: device_turn_stdin(2))

lemma advanced_menu_stdin_le:
  "length (stdin (snd (advanced_menu sys binary w))) \<le> length (stdin w)"
proof (induction sys binary w rule: advanced_menu.induct)
  case (1 sys binary w)
  obtain t w' where t: "advanced_turn sys binary w = (t, w')"
    by (cases "advanced_turn sys binary w")
  from advanced_turn_stdin(1) [of sys binary w] t
  have le: "length (stdin w') \<le> length (stdin w)" by simp
  show ?case
  proof (cases t)
    case Continue
    with "1.IH" [of t w'] t le show ?thesis by simp
  qed (use t le in simp_all)
qed

lemma device_menu_stdin_le:
  "length (stdin (snd (device_menu sys binary w))) \<le> length (stdin w)"
proof (induction sys binary w rule: device_menu.induct)
  case (1 sys binary w)
  obtain t w' where t: "device_turn sys binary w = (t, w')"
    by (cases "device_turn sys binary w")
  from device_turn_stdin(1) [of sys binary w] t
  have le: "length (stdin w') \<le> length (stdin w)" by simp
  show ?case
  proof (cases t)
    case Continue
    with "1.IH" [of t w'] t le show ?thesis by simp
  qed (use t le in simp_all)
qed

definition host_turn :: "system \<Rightarrow> string \<Rightarrow> world \<Rightarrow> turn \<times> world" where
  "host_turn sys binary w =
     (case prompt ''Select option: '' (show_menu ''Host mode'' (host_actions sys binary) w) of
        (Inl e, w') \<Rightarrow> (Raise e, w')
      | (Inr choice, w') \<Rightarrow>
          if lower choice = ''b'' then (Return, w')
          else if choice = ''5'' then
            (case advanced_menu sys binary w' of
               (Inl e, w'') \<Rightarrow> (Raise e, w'')
             | (Inr _, w'') \<Rightarrow> (Continue, w''))
          else dispatch (host_actions sys binary) choice w')"

lemma host_turn_stdin:
  "length (stdin (snd (host_turn sys binary w))) \<le> length (stdin w)"
  "host_turn sys binary w = (Continue, w') \<Longrightarrow> length (stdin w') < length (stdin w)"
proof -
  let ?v = "show_menu ''Host mode'' (host_actions sys binary) w"
  obtain r v' where p: "prompt ''Select option: '' ?v = (r, v')"
    by (cases "prompt ''Select option: '' ?v")
  have le: "length (stdin v') \<le> length (stdin w)"
    using prompt_stdin_le [of "''Select option: ''" ?v] p by simp
  have d: "length (stdin (snd (dispatch (host_actions sys binary) c v'))) \<le> length (stdin v')" for c
    by (rule dispatch_stdin_le) (rule registry_stdin_le, blast)
  have a: "length (stdin (snd (advanced_menu sys binary v'))) \<le> length (stdin v')"
    by (rule advanced_menu_stdin_le)
  have rest: "length (stdin (snd (host_turn sys binary w))) \<le> length (stdin v')"
    using p d a by (cases r) (auto simp: host_turn_def split: prod.splits sum.splits)
  with le show "length (stdin (snd (host_turn sys binary w))) \<le> length (stdin w)"
    by simp
  show "length (stdin w') < length (stdin w)" if "host_turn sys binary w = (Continue, w')"
  proof (cases r)
    case (Inl e)
    with that p show ?thesis by (simp add: host_turn_def)
  next
    case (Inr c)
    with p have "length (stdin v') < length (stdin w)"
      using prompt_Inr_stdin [of "''Select option: ''" ?v c v'] by simp
    with rest that show ?thesis by simp
  qed
qed

function host_menu :: "system \<Rightarrow> string \<Rightarrow> world \<Rightarrow> unit res" where
  "host_menu sys binary w =
     (case host_turn sys binary w of
        (Continue, w') \<Rightarrow> host_menu sys binary w'
      | (Return, w') \<Rightarrow> (Inr (), w')
      | (Raise e, w') \<Rightarrow> (Inl e, w'))"
  by pat_completeness auto
termination
  by (relation "measure (\<lambda>(sys, binary, w). length (stdin w))")
    (auto simp: host_turn_stdin(2))

lemma host_menu_stdin_le:
  "length (stdin (snd (host_menu sys binary w))) \<le> length (stdin w)"
proof (induction sys binary w rule: host_menu.induct)
  case (1 sys binary w)
  obtain t w' where t: "host_turn sys binary w = (t, w')"
    by (cases "host_turn sys binary w")
  from host_turn_stdin(1) [of sys binary w] t
  have le: "length (stdin w') \<le> length (stdin w)" by simp
  show ?case
  proof (cases t)
    case Continue
    with "1.IH" [of t w'] t le show ?thesis by simp
  qed (use t le in simp_all)
qed

definition show_modes :: "world \<Rightarrow> world" where
  "show_modes w =
     print ''q) Quit''
       (print ''2) Run on current device (client)''
         (print ''1) Host (run/manage server)''
           (print (nl # ''Choose mode:'') w)))"

definition menu_turn :: "system \<Rightarrow> string \<Rightarrow> world \<Rightarrow> turn \<times> world" where
  "menu_turn sys binary w =
     (case prompt ''Select option: '' (show_modes w) of
        (Inl e, w') \<Rightarrow> (Raise e, w')
      | (Inr answer, w') \<Rightarrow>
          let choice = lower answer in
          if choice = ''1'' then
            (case host_menu sys binary w' of
               (Inl e, w'') \<Rightarrow> (Raise e, w'')
             | (Inr _, w'') \<Rightarrow> (Continue, w''))
          else if choice = ''2'' then
            (case device_menu sys binary w' of
               (Inl e, w'') \<Rightarrow> (Raise e, w'')
             | (Inr _, w'') \<Rightarrow> (Continue, w''))
          else if choice = ''q'' then (Return, print ''Bye.'' w')
          else (Continue, print (''Invalid choice.'' @ [nl]) w'))"

lemma menu_turn_stdin:
  "menu_turn sys binary w = (Continue, w') \<Longrightarrow> length (stdin w') < length (stdin w)"
proof -
  assume c: "menu_turn sys binary w = (Continue, w')"
  obtain r v' where p: "prompt ''Select option: '' (show_modes w) = (r, v')"
    by (cases "prompt ''Select option: '' (show_modes w)")
  have h: "length (stdin (snd (host_menu sys binary v'))) \<le> length (stdin v')"
    by (rule host_menu_stdin_le)
  have d: "length (stdin (snd (device_menu sys binary v'))) \<le> length (stdin v')"
    by (rule device_menu_stdin_le)
  show ?thesis
  proof (cases r)
    case (Inl e)
    with c p show ?thesis by (simp add: menu_turn_def)
  next
    case (Inr a)
    with p have "length (stdin v') < length (stdin (show_modes w))"
      using prompt_Inr_stdin [of "''Select option: ''" "show_modes w" a v'] by simp
    then have lt: "length (stdin v') < length (stdin w)" by (simp add: show_modes_def)
    from c p Inr h d have "length (stdin w') \<le> length (stdin v')"
      by (auto simp: menu_turn_def Let_def split: if_splits prod.splits sum.splits)
    with lt show ?thesis by simp
  qed
qed

function menu_loop :: "system \<Rightarrow> string \<Rightarrow> world \<Rightarrow> unit res" where
  "menu_loop sys binary w =
     (case menu_turn sys binary w of
        (Continue, w') \<Rightarrow> menu_loop sys binary w'
      | (Return, w') \<Rightarrow> (Inr (), w')
      | (Raise e, w') \<Rightarrow> (Inl e, w'))"
  by pat_completeness auto
termination
  by (relation "measure (\<lambda>(sys, binary, w). length (stdin w))")
    (auto simp: menu_turn_stdin)

section \<open>Locating the binary\<close>

text \<open>
  Paths as \<^verbatim>\<open>pathlib\<close> keeps them on a POSIX system: an anchor (empty, one slash, or
  exactly two slashes) and the names below it. \<^verbatim>\<open>Path(s)\<close> drops empty names and single
  dots; \<^verbatim>\<open>str\<close> puts the slashes back and shows the empty path as a dot.
\<close>

datatype path = PosixPath (anchor: string) (names: "string list")

fun split_slash :: "string \<Rightarrow> string list" where
  "split_slash [] = [[]]"
| "split_slash (c # cs) =
     (if c = CHR ''/'' then [] # split_slash cs
      else (case split_slash cs of [] \<Rightarrow> [[c]] | x # xs \<Rightarrow> (c # x) # xs))"

definition Path :: "string \<Rightarrow> path" where
  "Path s =
     PosixPath
       (if take 2 s = ''//'' \<and> take 3 s \<noteq> ''///'' then ''//''
        else if take 1 s = ''/'' then ''/'' else [])
       (filter (\<lambda>n. n \<noteq> [] \<and> n \<noteq> ''.'') (split_slash s))"

definition path_str :: "path \<Rightarrow> string" where
  "path_str p = (if anchor p = [] \<and> names p = [] then ''.'' else anchor p @ join ''/'' (names p))"

definition parent :: "path \<Rightarrow> path" where
  "parent p = PosixPath (anchor p) (butlast (names p))"

definition truediv :: "path \<Rightarrow> string \<Rightarrow> path" where
  \<comment> \<open>\<^verbatim>\<open>p / s\<close>: an anchored right-hand side replaces the left one.\<close>
  "truediv p s =
     (if anchor (Path s) \<noteq> [] then Path s
      else PosixPath (anchor p) (names p @ names (Path s)))"

text \<open>
  \<open>script\<close> is \<^verbatim>\<open>Path(__file__).resolve()\<close>, which the interpreter computes once when
  the module is loaded; the environment is \<^verbatim>\<open>os.environ\<close>; the file system is asked
  whether a path exists, nothing more.
\<close>

definition DEFAULT_BINARY :: "path \<Rightarrow> path" where
  "DEFAULT_BINARY script = truediv (parent (parent script)) ''opennet''"

definition find_binary :: "(string \<rightharpoonup> string) \<Rightarrow> path \<Rightarrow> path" where
  "find_binary environ script =
     (case environ ''OPENNET_BIN'' of
        None \<Rightarrow> DEFAULT_BINARY script
      | Some env_path \<Rightarrow> if env_path \<noteq> [] then Path env_path else DEFAULT_BINARY script)"

type_synonym filesystem = "path \<Rightarrow> bool"

definition ensure_binary :: "filesystem \<Rightarrow> path \<Rightarrow> exn + path" where
  "ensure_binary exists binary =
     (if \<not> exists binary
      then Inl (Exception (''OpenNET binary not found at '' @ path_str binary
                  @ ''. Build it with '' @ [sq] @ ''go build ./cmd/opennet'' @ [sq]
                  @ '' or set $OPENNET_BIN.''))
      else Inr binary)"

section \<open>The banner, the consent and the root menu\<close>

definition art :: string where
  "art = concat (map (\<lambda>line. nl # line)
     [''  ____                  _   _   _ ______ _______ '',
      '' / ___|  ___ _ ____   _| '' @ [bs] @ '' | | | |  _ '' @ [bs] @ '' '' @ [bs] @ ''_   _/ '' @ [bs],
      '' '' @ [bs] @ ''___ '' @ [bs] @ '' / _ '' @ [bs] @ '' '' @ [sq] @ ''__'' @ [bs] @ '' '' @ [bs] @ '' / /  '' @ [bs] @ ''| | | | |_) | | | |/  /'',
      ''  ___) |  __/ |   '' @ [bs] @ '' V /| |'' @ [bs] @ ''  | |_| |  _ <  | | /'' @ [bs] @ '' '' @ [bs],
      '' |____/ '' @ [bs] @ ''___|_|    '' @ [bs] @ ''_/ |_| '' @ [bs] @ ''_|'' @ [bs] @ ''___/|_| '' @ [bs] @ ''_'' @ [bs] @ '' |_| '' @ [bs] @ ''/ /'',
      ''    OpenNET by Majd Alzadjali'']) @ [nl]"

definition print_banner :: "world \<Rightarrow> world" where
  "print_banner w = print art w"

definition menu :: "system \<Rightarrow> filesystem \<Rightarrow> path \<Rightarrow> world \<Rightarrow> unit res" where
  "menu sys exists binary w =
     (case ensure_binary exists binary of
        Inl KeyboardInterrupt \<Rightarrow> (Inl KeyboardInterrupt, w)
      | Inl (Exception exc) \<Rightarrow> (Inr (), print exc w)
      | Inr binary \<Rightarrow>
          (case ask_yes_no ''Press Y to continue or N to quit: '' (print_banner w) of
             (Inl e, w') \<Rightarrow> (Inl e, w')
           | (Inr yes, w') \<Rightarrow>
               if \<not> yes then (Inr (), print ''Declined. Bye.'' w')
               else menu_loop sys (path_str binary) w'))"

definition main :: "system \<Rightarrow> filesystem \<Rightarrow> (string \<rightharpoonup> string) \<Rightarrow> path \<Rightarrow> world \<Rightarrow> unit res" where
  \<comment> \<open>\<^verbatim>\<open>menu(find_binary())\<close>\<close>
  "main sys exists environ script w = menu sys exists (find_binary environ script) w"

section \<open>Splitting by the rules of the shell\<close>








section \<open>The service controller: first success wins\<close>

text \<open>
  Claim C1. For a recognised action the service controller runs the service manager on
  the candidates in their fixed order, one at a time: the processes it has run are
  \<open>systemctl action name\<close> for the first \<open>k\<close> candidates, with \<open>k\<close> between 1 and 4.
  When the invocations of the first \<open>n\<close> candidates end with a non-zero exit code and the
  next one ends with exit code 0, the controller returns the result of that invocation
  as the process runner produced it, and has run exactly \<open>n + 1\<close> processes.
\<close>

theorem tor_service_first_success:
  assumes "action \<in> {''start'', ''stop'', ''reload'', ''status''}"
  shows "(\<exists>k. 1 \<le> k \<and> k \<le> 4 \<and>
            snd (tor_service sys action w)
              = w\<lparr>calls := calls w @ probes action (take k service_names)\<rparr>)
       \<and> (n < 4 \<and> (\<forall>j<n. \<exists>r'. fst (attempt sys action service_names w j) = Inr r' \<and> returncode r' \<noteq> 0)
            \<and> fst (attempt sys action service_names w n) = Inr r \<and> returncode r = 0
          \<longrightarrow> tor_service sys action w
                = (Inr r, w\<lparr>calls := calls w @ probes action (take (Suc n) service_names)\<rparr>))"
proof (intro conjI impI)
  from loop_calls [of service_names sys action None w]
  obtain k where "k \<le> length service_names" "service_names = [] \<or> 0 < k"
    "snd (tor_service_loop sys action service_names None w)
       = w\<lparr>calls := calls w @ probes action (take k service_names)\<rparr>"
    by blast
  moreover have "length service_names = 4" by (simp add: service_names_def)
  ultimately show "\<exists>k. 1 \<le> k \<and> k \<le> 4 \<and>
            snd (tor_service sys action w)
              = w\<lparr>calls := calls w @ probes action (take k service_names)\<rparr>"
    using assms by (intro exI [of _ k]) (auto simp: tor_service_def)
next
  assume h: "n < 4 \<and> (\<forall>j<n. \<exists>r'. fst (attempt sys action service_names w j) = Inr r' \<and> returncode r' \<noteq> 0)
            \<and> fst (attempt sys action service_names w n) = Inr r \<and> returncode r = 0"
  have "length service_names = 4" by (simp add: service_names_def)
  with h have "tor_service_loop sys action service_names None w
      = (Inr r, w\<lparr>calls := calls w @ probes action (take (Suc n) service_names)\<rparr>)"
    by (intro loop_first_success) auto
  with assms show "tor_service sys action w
                = (Inr r, w\<lparr>calls := calls w @ probes action (take (Suc n) service_names)\<rparr>)"
    by (simp add: tor_service_def)
qed

theorem tor_service_first_success_witness:
  "tor_service third_succeeds ''status'' idle
     = (Inr \<lparr>command = ''systemctl status tor@default'', stdout = ''active'', stderr = [],
              returncode = 0\<rparr>,
        idle\<lparr>calls := [[''systemctl'', ''status'', ''tor''],
                         [''systemctl'', ''status'', ''tor.service''],
                         [''systemctl'', ''status'', ''tor@default'']]\<rparr>)"
proof -
  let ?r = "\<lparr>command = ''systemctl status tor@default'', stdout = ''active'', stderr = [],
              returncode = 0\<rparr>"
  have names: "service_names = [''tor'', ''tor.service'', ''tor@default'', ''tor@default.service'']"
    by (simp add: service_names_def)
  have a: "fst (attempt third_succeeds ''status'' service_names idle j)
      = Inr \<lparr>command = command_text [''systemctl'', ''status'', service_names ! j],
              stdout = [], stderr = ''not found'', returncode = 4\<rparr>" if "j < 2" for j
  proof -
    from that have "j = 0 \<or> j = 1" by auto
    then show ?thesis
      by (auto simp: attempt_def run_def third_succeeds_def idle_def probes_def names strip_def isspace_def)
  qed
  have q: "command_text [''systemctl'', ''status'', ''tor@default''] = ''systemctl status tor@default''"
    by (simp add: command_text_def shlex_quote_def safe_char_def)
  have b: "fst (attempt third_succeeds ''status'' service_names idle 2) = Inr ?r"
    by (simp add: attempt_def run_def third_succeeds_def idle_def probes_def names strip_def isspace_def q)
  have c: "\<forall>j<2. \<exists>r'. fst (attempt third_succeeds ''status'' service_names idle j) = Inr r' \<and> returncode r' \<noteq> 0"
    using a by simp
  from tor_service_first_success [of "''status''" third_succeeds idle 2 ?r] b c
  show ?thesis by (simp add: names probes_def idle_def)
qed

section \<open>The service controller: unsupported actions\<close>

text \<open>
  Claim C8. For an action outside \<open>start\<close>, \<open>stop\<close>, \<open>reload\<close> and \<open>status\<close> the
  service controller returns a result with empty command text, exit code 1 and the error
  text \<open>Unsupported action\<close> followed by the action, and leaves the world as it was: no
  process is run.
\<close>

theorem tor_service_unsupported:
  assumes "action \<notin> {''start'', ''stop'', ''reload'', ''status''}"
  shows "tor_service sys action w
           = (Inr \<lparr>command = [], stdout = [], stderr = ''Unsupported action '' @ action,
                    returncode = 1\<rparr>, w)"
  using assms by (simp add: tor_service_def)

theorem tor_service_unsupported_witness:
  "tor_service always_fails ''restart'' idle
     = (Inr \<lparr>command = [], stdout = [], stderr = ''Unsupported action restart'',
              returncode = 1\<rparr>, idle)
   \<and> calls (snd (tor_service always_fails ''restart'' idle)) = []"
  using tor_service_unsupported [of "''restart''" always_fails idle]
  by (simp add: idle_def)

section \<open>The result presenter\<close>

text \<open>
  Claim C9. The presenter prints the command line after a line break and the marker
  \<open>$\<close>, then the standard output if and only if it is not empty, then the error output
  tagged \<open>[stderr]\<close> if and only if it is not empty, then an empty line. It reads no
  input and runs no process, the exit code has no influence, and for a result with empty
  outputs and exit code 0 exactly the command line and the empty line are printed.
\<close>

theorem print_result_blocks:
  "out (print_result result w)
     = out w @ [Print (CHR 0x0A # ''$ '' @ command result)]
         @ (if stdout result = [] then [] else [Print (stdout result)])
         @ (if stderr result = [] then [] else [Print (''[stderr] '' @ stderr result)])
         @ [Print []]
   \<and> stdin (print_result result w) = stdin w
   \<and> calls (print_result result w) = calls w
   \<and> print_result (result\<lparr>returncode := n\<rparr>) w = print_result result w
   \<and> out (print_result \<lparr>command = c, stdout = [], stderr = [], returncode = 0\<rparr> w)
        = out w @ [Print (CHR 0x0A # ''$ '' @ c), Print []]"
  by (simp add: print_result_def print_def Let_def)

section \<open>The service controller: every candidate fails\<close>

lemma tor_service_always_fails:
  "tor_service always_fails ''status'' idle
     = (Inr \<lparr>command = [], stdout = [],
             stderr = ''boom (Tor may not be installed or systemctl may require sudo)'',
             returncode = 3\<rparr>, idle\<lparr>calls := probes ''status'' service_names\<rparr>)"
  by (simp add: tor_service_def service_names_def run_def always_fails_def strip_def isspace_def
      hint_def idle_def probes_def)

lemma always_fails_attempt:
  "fst (attempt always_fails action service_names w j)
     = Inr \<lparr>command = command_text [''systemctl'', action, service_names ! j],
             stdout = [], stderr = ''boom'', returncode = 3\<rparr>"
  by (simp add: attempt_def run_def always_fails_def strip_def isspace_def)

text \<open>
  Claim C2, as the specification words it, names the hint
  \<open>service may not be installed, or elevated privileges may be required\<close>. The code
  appends another text: against a service manager whose every process ends with exit code
  3 and the error text \<open>boom\<close>, the error text of the result is \<open>boom\<close> followed by
  \<open> (Tor may not be installed or systemctl may require sudo)\<close>.
\<close>

theorem tor_service_hint_counterexample:
  "fst (attempt always_fails ''status'' service_names idle 3)
     = Inr \<lparr>command = ''systemctl status tor@default.service'', stdout = [], stderr = ''boom'',
             returncode = 3\<rparr>
   \<and> fst (tor_service always_fails ''status'' idle)
     = Inr \<lparr>command = [], stdout = [],
             stderr = ''boom (Tor may not be installed or systemctl may require sudo)'',
             returncode = 3\<rparr>
   \<and> ''boom (Tor may not be installed or systemctl may require sudo)''
     \<noteq> ''boom'' @ ''service may not be installed, or elevated privileges may be required''"
proof -
  have q: "command_text [''systemctl'', ''status'', ''tor@default.service'']
             = ''systemctl status tor@default.service''"
    by (simp add: command_text_def shlex_quote_def safe_char_def)
  show ?thesis
    by (simp add: always_fails_attempt tor_service_always_fails) (simp add: service_names_def q)
qed

text \<open>
  Claim C2, amended. For a recognised action, when the invocations of all four candidates
  end with a non-zero exit code, the service controller returns a result with empty
  command text, the last candidate's standard output, the last candidate's error text
  followed by \<open> (Tor may not be installed or systemctl may require sudo)\<close>, and the last
  candidate's exit code, after running exactly the four candidates. The candidate loop
  over an empty list of names returns that hint alone with exit code 1.
\<close>

theorem tor_service_all_fail:
  assumes "action \<in> {''start'', ''stop'', ''reload'', ''status''}"
    and "\<forall>j<4. \<exists>r'. fst (attempt sys action service_names w j) = Inr r' \<and> returncode r' \<noteq> 0"
    and "fst (attempt sys action service_names w 3) = Inr r"
  shows "tor_service sys action w
           = (Inr \<lparr>command = [], stdout = stdout r,
                    stderr = stderr r @ '' (Tor may not be installed or systemctl may require sudo)'',
                    returncode = returncode r\<rparr>,
              w\<lparr>calls := calls w @ probes action service_names\<rparr>)
       \<and> tor_service_loop sys action [] None w
           = (Inr \<lparr>command = [], stdout = [],
                    stderr = '' (Tor may not be installed or systemctl may require sudo)'',
                    returncode = 1\<rparr>, w)"
proof -
  have len: "length service_names = 4" "service_names \<noteq> []"
    by (simp_all add: service_names_def)
  from assms(2) len
  have "\<forall>j<length service_names. \<exists>r'. fst (attempt sys action service_names w j) = Inr r' \<and> returncode r' \<noteq> 0"
    by simp
  from loop_all_fail [OF this, of None] len assms(3)
  have "tor_service_loop sys action service_names None w
      = tor_service_loop sys action [] (Some r) (w\<lparr>calls := calls w @ probes action service_names\<rparr>)"
    by simp
  with assms(1) show ?thesis by (simp add: tor_service_def hint_def)
qed

theorem tor_service_all_fail_witness:
  "tor_service always_fails ''status'' idle
     = (Inr \<lparr>command = [], stdout = [],
              stderr = ''boom (Tor may not be installed or systemctl may require sudo)'',
              returncode = 3\<rparr>,
        idle\<lparr>calls := [[''systemctl'', ''status'', ''tor''],
                         [''systemctl'', ''status'', ''tor.service''],
                         [''systemctl'', ''status'', ''tor@default''],
                         [''systemctl'', ''status'', ''tor@default.service'']]\<rparr>)"
  using tor_service_all_fail [of "''status''" always_fails idle
      "\<lparr>command = command_text [''systemctl'', ''status'', service_names ! 3],
             stdout = [], stderr = ''boom'', returncode = 3\<rparr>"]
  by (simp add: always_fails_attempt) (simp add: idle_def probes_def service_names_def)

section \<open>The command text of results\<close>

text \<open>
  Claim C5, as the specification words it, asks of every result, the service
  controller's synthesized failure included, a command text that shows the argument
  vector of the invocation. When every candidate fails the controller has run four
  processes and returns the empty command text, which is the text of none of them.
\<close>

theorem synthesized_command_counterexample:
  "fst (tor_service always_fails ''status'' idle)
     = Inr \<lparr>command = [], stdout = [],
             stderr = ''boom (Tor may not be installed or systemctl may require sudo)'',
             returncode = 3\<rparr>
   \<and> calls (snd (tor_service always_fails ''status'' idle))
     = [[''systemctl'', ''status'', ''tor''], [''systemctl'', ''status'', ''tor.service''],
        [''systemctl'', ''status'', ''tor@default''],
        [''systemctl'', ''status'', ''tor@default.service'']]
   \<and> [] \<notin> command_text ` set (calls (snd (tor_service always_fails ''status'' idle)))"
proof -
  show ?thesis
    by (simp add: tor_service_always_fails) (simp add: idle_def probes_def service_names_def command_text_def shlex_quote_def safe_char_def)
qed

text \<open>
  Claim C5, amended. Every result of the process runner carries the command text of the
  argument vector it was given, each argument quoted and the arguments joined by blanks.
  A result of the service controller with exit code 0 carries the command text of the
  last process run, which is one of the candidate invocations; every other result of the
  service controller carries the empty command text.
\<close>

theorem command_text_of_results:
  "(run sys cmd w = (Inr r, w') \<longrightarrow> command r = command_text cmd)
   \<and> (tor_service sys' action v = (Inr t, v') \<longrightarrow>
        (if returncode t = 0
         then calls v' \<noteq> [] \<and> command t = command_text (last (calls v'))
              \<and> last (calls v') \<in> set (probes action service_names)
         else command t = []))"
proof (intro conjI impI)
  assume "run sys cmd w = (Inr r, w')"
  then show "command r = command_text cmd" by (rule run_command)
next
  assume a: "tor_service sys' action v = (Inr t, v')"
  show "if returncode t = 0
         then calls v' \<noteq> [] \<and> command t = command_text (last (calls v'))
              \<and> last (calls v') \<in> set (probes action service_names)
         else command t = []"
  proof (cases "action \<in> {''start'', ''stop'', ''reload'', ''status''}")
    case False
    with a show ?thesis by (auto simp: tor_service_def)
  next
    case True
    with a have l: "tor_service_loop sys' action service_names None v = (Inr t, v')"
      by (auto simp: tor_service_def split: if_splits)
    from loop_command [OF l] have c: "if returncode t = 0
         then calls v' \<noteq> [] \<and> command t = command_text (last (calls v'))
         else command t = []" by simp
    from loop_calls [of service_names sys' action None v] l
    obtain k where k: "k \<le> length service_names" "0 < k"
      "v' = v\<lparr>calls := calls v @ probes action (take k service_names)\<rparr>"
      by (auto simp: service_names_def)
    then have "take k service_names \<noteq> []" by (auto simp: service_names_def)
    then have "last (calls v') = last (probes action (take k service_names))"
      using k(3) by (simp add: probes_def)
    also have "\<dots> \<in> set (probes action (take k service_names))"
      using \<open>take k service_names \<noteq> []\<close> by (intro last_in_set) (simp add: probes_def)
    also have "\<dots> \<subseteq> set (probes action service_names)"
      by (auto simp: probes_def dest: in_set_takeD)
    finally show ?thesis using c by simp
  qed
qed

theorem command_text_of_results_witness:
  "command (projr (fst (run third_succeeds [''opennet'', ''show'', ''server'', ''my home''] idle)))
     = [CHR ''o'', CHR ''p'', CHR ''e'', CHR ''n'', CHR ''n'', CHR ''e'', CHR ''t'', CHR '' '',
        CHR ''s'', CHR ''h'', CHR ''o'', CHR ''w'', CHR '' '',
        CHR ''s'', CHR ''e'', CHR ''r'', CHR ''v'', CHR ''e'', CHR ''r'', CHR '' '',
        sq, CHR ''m'', CHR ''y'', CHR '' '', CHR ''h'', CHR ''o'', CHR ''m'', CHR ''e'', sq]
   \<and> command (projr (fst (tor_service always_fails ''status'' idle))) = []"
proof -
  obtain r w' where r: "run third_succeeds [''opennet'', ''show'', ''server'', ''my home''] idle = (Inr r, w')"
    by (simp add: run_def third_succeeds_def idle_def)
  obtain t v' where t: "tor_service always_fails ''status'' idle = (Inr t, v')" "returncode t = 3"
    using tor_service_always_fails by simp
  from command_text_of_results [of third_succeeds "[''opennet'', ''show'', ''server'', ''my home'']" idle r w'
      always_fails "''status''" idle t v'] r t
  show ?thesis
    by (simp add: command_text_def shlex_quote_def safe_char_def quote_char_def)
qed

section \<open>The yes/no prompt\<close>






section \<open>The reload of a server\<close>

text \<open>
  Claim C3. Once the server name has been read, the reload runs \<open>down\<close> on it first.
  When that process ends with a non-zero exit code the reload returns its result as it
  is and no other process has been run; when it ends with exit code 0 the reload runs
  \<open>up\<close> on the same server, once, and returns what that invocation gives.
\<close>

theorem reload_server_short_circuit:
  assumes "prompt ''Server name: '' w = (Inr server, w1)"
    and "run sys [binary, ''down'', server] w1 = (Inr down_result, w2)"
  shows "calls w2 = calls w @ [[binary, ''down'', server]]
       \<and> (returncode down_result \<noteq> 0 \<longrightarrow> reload_server sys binary w = (Inr down_result, w2))
       \<and> (returncode down_result = 0 \<longrightarrow>
            reload_server sys binary w = run sys [binary, ''up'', server] w2
            \<and> calls (snd (reload_server sys binary w))
                = calls w @ [[binary, ''down'', server], [binary, ''up'', server]])"
proof -
  from assms(1) have "calls w1 = calls w"
    by (auto simp: prompt_def Let_def split: list.splits keyboard.splits)
  with run_calls [of sys "[binary, ''down'', server]" w1] assms(2)
  have c: "calls w2 = calls w @ [[binary, ''down'', server]]" by simp
  have r: "reload_server sys binary w
      = (if returncode down_result \<noteq> 0 then (Inr down_result, w2)
         else run sys [binary, ''up'', server] w2)"
    using assms by (simp add: reload_server_def bind_def)
  show ?thesis using c r run_calls [of sys "[binary, ''up'', server]" w2] by simp
qed

theorem reload_server_short_circuit_witness:
  "reload_server (down_exits 2) ''/opt/opennet'' (idle\<lparr>stdin := [Line '' home '']\<rparr>)
     = (Inr \<lparr>command = ''/opt/opennet down home'', stdout = [],
              stderr = ''is not a WireGuard interface'', returncode = 2\<rparr>,
        \<lparr>stdin = [], out = [Prompt ''Server name: ''],
         calls = [[''/opt/opennet'', ''down'', ''home'']]\<rparr>)
   \<and> reload_server (down_exits 0) ''/opt/opennet'' (idle\<lparr>stdin := [Line '' home '']\<rparr>)
     = (Inr \<lparr>command = ''/opt/opennet up home'', stdout = ''interface up'',
              stderr = [], returncode = 0\<rparr>,
        \<lparr>stdin = [], out = [Prompt ''Server name: ''],
         calls = [[''/opt/opennet'', ''down'', ''home''], [''/opt/opennet'', ''up'', ''home'']]\<rparr>)"
proof -
  let ?w = "idle\<lparr>stdin := [Line '' home '']\<rparr>"
  let ?w1 = "\<lparr>stdin = [], out = [Prompt ''Server name: ''], calls = []\<rparr>"
  let ?w2 = "\<lparr>stdin = [], out = [Prompt ''Server name: ''],
         calls = [[''/opt/opennet'', ''down'', ''home'']]\<rparr>"
  have p: "prompt ''Server name: '' ?w = (Inr ''home'', ?w1)"
    by (simp add: prompt_def idle_def strip_def isspace_def)
  have q: "command_text [''/opt/opennet'', ''down'', ''home''] = ''/opt/opennet down home''"
    "command_text [''/opt/opennet'', ''up'', ''home''] = ''/opt/opennet up home''"
    by (simp_all add: command_text_def shlex_quote_def safe_char_def)
  have d: "run (down_exits n) [''/opt/opennet'', ''down'', ''home''] ?w1
      = (Inr \<lparr>command = ''/opt/opennet down home'', stdout = [],
              stderr = ''is not a WireGuard interface'', returncode = n\<rparr>, ?w2)" for n
    by (simp add: run_def down_exits_def q strip_def isspace_def)
  have u: "run (down_exits n) [''/opt/opennet'', ''up'', ''home''] ?w2
      = (Inr \<lparr>command = ''/opt/opennet up home'', stdout = ''interface up'',
              stderr = [], returncode = 0\<rparr>,
        \<lparr>stdin = [], out = [Prompt ''Server name: ''],
         calls = [[''/opt/opennet'', ''down'', ''home''], [''/opt/opennet'', ''up'', ''home'']]\<rparr>)" for n
    by (simp add: run_def down_exits_def q strip_def isspace_def)
  from reload_server_short_circuit [OF p d [of 2]] reload_server_short_circuit [OF p d [of 0]] u [of 0]
  show ?thesis by simp
qed

section \<open>The binary locator\<close>

text \<open>
  Claim C7. With the variable \<open>OPENNET_BIN\<close> set to a non-empty text the locator
  returns the path of that text, whatever the default is; with the variable absent it
  returns the directory two levels above the script, joined with the name \<open>opennet\<close>.
  The override \<open>/tmp/x\<close> gives the path \<open>/tmp/x\<close>. The locator is a function of the
  environment and of the script's location alone: it takes no file system.
\<close>

theorem find_binary_override:
  "(environ ''OPENNET_BIN'' = Some p \<and> p \<noteq> [] \<longrightarrow> find_binary environ script = Path p)
   \<and> (environ ''OPENNET_BIN'' = None \<longrightarrow>
        find_binary environ script
          = PosixPath (anchor script) (butlast (butlast (names script)) @ [''opennet'']))
   \<and> find_binary [''OPENNET_BIN'' \<mapsto> ''/tmp/x''] script = PosixPath ''/'' [''tmp'', ''x'']
   \<and> path_str (PosixPath ''/'' [''tmp'', ''x'']) = ''/tmp/x''"
proof -
  have o: "Path ''opennet'' = PosixPath [] [''opennet'']"
    by (simp add: Path_def)
  have x: "Path ''/tmp/x'' = PosixPath ''/'' [''tmp'', ''x'']"
    by (simp add: Path_def)
  show ?thesis
    by (simp add: find_binary_def DEFAULT_BINARY_def truediv_def parent_def o x path_str_def)
qed

theorem find_binary_override_witness:
  "find_binary [''OPENNET_BIN'' \<mapsto> ''/tmp/x''] (PosixPath ''/'' [''srv'', ''opennet'', ''scripts'', ''tui.py''])
     = Path ''/tmp/x''
   \<and> find_binary Map.empty (PosixPath ''/'' [''srv'', ''opennet'', ''scripts'', ''tui.py''])
     = PosixPath ''/'' [''srv'', ''opennet'', ''opennet'']"
  using find_binary_override [of "[''OPENNET_BIN'' \<mapsto> ''/tmp/x'']" "''/tmp/x''"
      "PosixPath ''/'' [''srv'', ''opennet'', ''scripts'', ''tui.py'']"]
    find_binary_override [of Map.empty "''/tmp/x''"
      "PosixPath ''/'' [''srv'', ''opennet'', ''scripts'', ''tui.py'']"]
  by simp

section \<open>What the menus write\<close>





lemma run_out [simp]: "out (snd (run sys cmd w)) = out w"
  by (simp add: run_world)

lemma tor_service_out [simp]: "out (snd (tor_service sys action w)) = out w"
proof (cases "action \<in> {''start'', ''stop'', ''reload'', ''status''}")
  case True
  from loop_calls [of service_names sys action None w] True show ?thesis
    by (auto simp: tor_service_def)
next
  case False
  then show ?thesis by (simp add: tor_service_def)
qed

















section \<open>Unrecognized keys\<close>




section \<open>The command text splits back into the argument vector\<close>











end
